theory Spec2Isabelle
  imports Complex_Main "HOL-Library.Sublist"
begin

section \<open>JSON values and Python primitives\<close>

text \<open>
  The routes mapping is what \<^verbatim>\<open>response.json()\<close> decoded: \<^verbatim>\<open>None\<close>, booleans, integers,
  floats, strings, lists and dicts with string keys. A dict is an association list in
  insertion order; its keys are pairwise distinct. Strings are lists of characters.

  \<^verbatim>\<open>str.lower\<close> and \<^verbatim>\<open>str.upper\<close> are functions of the Python library, computed from
  the Unicode case tables, which are no part of the source: an upper-case letter may
  lower to a letter another string already has, and a string may change its length. The
  generator therefore takes the two case mappings as parameters \<open>lower\<close> and \<open>upper\<close>,
  and every general statement below holds for any pair of functions on strings.
\<close>

datatype json =
    JNull
  | JBool bool
  | JInt int
  | JFloat real
  | JStr string
  | JList "json list"
  | JDict "(string \<times> json) list"

datatype error = AttributeError | TypeError

definition dict_get :: "(string \<times> 'v) list \<Rightarrow> string \<Rightarrow> 'v \<Rightarrow> 'v" where
  \<comment> \<open>\<^verbatim>\<open>d.get(key, default)\<close>\<close>
  "dict_get d key dflt = (case map_of d key of None \<Rightarrow> dflt | Some v \<Rightarrow> v)"

definition dict_contains :: "(string \<times> 'v) list \<Rightarrow> string \<Rightarrow> bool" where
  \<comment> \<open>\<^verbatim>\<open>key in d\<close>\<close>
  "dict_contains d key = (key \<in> set (map fst d))"

fun dict_set :: "(string \<times> 'v) list \<Rightarrow> string \<Rightarrow> 'v \<Rightarrow> (string \<times> 'v) list" where
  \<comment> \<open>\<^verbatim>\<open>d[key] = v\<close>: an existing key keeps its position, a new key goes last\<close>
  "dict_set [] key v = [(key, v)]"
| "dict_set ((k, w) # d) key v = (if k = key then (k, v) # d else (k, w) # dict_set d key v)"

fun py_iter :: "json \<Rightarrow> error + json list" where
  \<comment> \<open>what a \<^verbatim>\<open>for\<close> loop over the value visits; \<^verbatim>\<open>TypeError\<close> when it is not iterable\<close>
  "py_iter (JList xs) = Inr xs"
| "py_iter (JStr s) = Inr (map (\<lambda>c. JStr [c]) s)"
| "py_iter (JDict d) = Inr (map (\<lambda>kv. JStr (fst kv)) d)"
| "py_iter _ = Inl TypeError"

text \<open>
  On strings of ASCII characters the library's case mappings are the two functions
  \<open>ascii_lower\<close> and \<open>ascii_upper\<close>. They serve to evaluate the generator on sample
  inputs whose method names are ASCII.
\<close>

definition lower_char :: "char \<Rightarrow> char" where
  "lower_char c =
     (let n = (of_char c :: nat) in if 65 \<le> n \<and> n \<le> 90 then char_of (n + 32) else c)"

definition upper_char :: "char \<Rightarrow> char" where
  "upper_char c =
     (let n = (of_char c :: nat) in if 97 \<le> n \<and> n \<le> 122 then char_of (n - 32) else c)"

definition ascii_lower :: "string \<Rightarrow> string" where
  "ascii_lower s = map lower_char s"

definition ascii_upper :: "string \<Rightarrow> string" where
  "ascii_upper s = map upper_char s"

definition startswith :: "string \<Rightarrow> string \<Rightarrow> bool" where
  "startswith s p = prefix p s"

section \<open>Path translation\<close>

text \<open>
  \<^verbatim>\<open>route.replace('/wp/v2', '')\<close>: left to right, every non-overlapping occurrence of
  the (non-empty) old string is replaced.
\<close>

function str_replace :: "string \<Rightarrow> string \<Rightarrow> string \<Rightarrow> string" where
  "str_replace old new [] = []"
| "str_replace old new (c # cs) =
     (if old \<noteq> [] \<and> prefix old (c # cs)
      then new @ str_replace old new (drop (length old) (c # cs))
      else c # str_replace old new cs)"
  by pat_completeness auto
termination
  by (relation "measure (\<lambda>(old, new, s). length s)") auto

text \<open>
  The three regular expressions of the source have no alternation, and each repetition
  \<^verbatim>\<open>[^x]+\<close> is followed by the literal \<^verbatim>\<open>x\<close>, so a match at a position, when there is one, is
  unique: the repetition takes every character up to the next \<^verbatim>\<open>x\<close>. Each matcher returns
  the text of group 1 and the rest of the subject after the match.
\<close>

definition backslash :: char where
  "backslash = CHR 0x5C"

definition match_numeric_group :: "string \<Rightarrow> (string \<times> string) option" where
  \<comment> \<open>\<^verbatim>\<open>\(\?P<([^>]+)>\[\\d\]\+\)\<close> at the start of the subject\<close>
  "match_numeric_group s =
     (if prefix ''(?P<'' s then
        let rest = drop 4 s;
            name = takeWhile (\<lambda>c. c \<noteq> CHR ''>'') rest;
            tail = dropWhile (\<lambda>c. c \<noteq> CHR ''>'') rest
        in if name \<noteq> [] \<and> prefix (''>['' @ [backslash] @ ''d]+)'') tail
           then Some (name, drop 7 tail) else None
      else None)"

definition match_generic_group :: "string \<Rightarrow> (string \<times> string) option" where
  \<comment> \<open>\<^verbatim>\<open>\(\?P<([^>]+)>[^)]+\)\<close> at the start of the subject\<close>
  "match_generic_group s =
     (if prefix ''(?P<'' s then
        let rest = drop 4 s;
            name = takeWhile (\<lambda>c. c \<noteq> CHR ''>'') rest;
            tail = dropWhile (\<lambda>c. c \<noteq> CHR ''>'') rest;
            body = takeWhile (\<lambda>c. c \<noteq> CHR '')'') (drop 1 tail);
            after = dropWhile (\<lambda>c. c \<noteq> CHR '')'') (drop 1 tail)
        in if name \<noteq> [] \<and> tail \<noteq> [] \<and> body \<noteq> [] \<and> after \<noteq> []
           then Some (name, drop 1 after) else None
      else None)"

definition match_brace :: "string \<Rightarrow> (string \<times> string) option" where
  \<comment> \<open>\<^verbatim>\<open>{([^}]+)}\<close> at the start of the subject\<close>
  "match_brace s =
     (if prefix ''{'' s then
        let name = takeWhile (\<lambda>c. c \<noteq> CHR ''}'') (drop 1 s);
            after = dropWhile (\<lambda>c. c \<noteq> CHR ''}'') (drop 1 s)
        in if name \<noteq> [] \<and> after \<noteq> [] then Some (name, drop 1 after) else None
      else None)"

definition group_template :: "string \<Rightarrow> string" where
  \<comment> \<open>the replacement template \<^verbatim>\<open>r'/{{\1}}'\<close>: a raw string, so both braces stay\<close>
  "group_template name = ''/{{'' @ name @ ''}}''"

lemma match_numeric_group_shorter:
  assumes "match_numeric_group s = Some (g, r)"
  shows "length r < length s"
proof -
  define tail where "tail = dropWhile (\<lambda>c. c \<noteq> CHR ''>'') (drop 4 s)"
  from assms have r: "r = drop 7 tail"
    and p: "prefix (''>['' @ [backslash] @ ''d]+)'') tail"
    by (simp_all add: match_numeric_group_def Let_def tail_def split: if_splits)
  from p have t: "tail \<noteq> []" by auto
  have "length tail \<le> length s"
    unfolding tail_def using length_dropWhile_le [of "\<lambda>c. c \<noteq> CHR ''>''" "drop 4 s"] by simp
  moreover from t have "length (drop 7 tail) < length tail" by (cases tail) auto
  ultimately show ?thesis using r by simp
qed

lemma match_generic_group_shorter:
  assumes "match_generic_group s = Some (g, r)"
  shows "length r < length s"
proof -
  define tail where "tail = dropWhile (\<lambda>c. c \<noteq> CHR ''>'') (drop 4 s)"
  define after where "after = dropWhile (\<lambda>c. c \<noteq> CHR '')'') (drop 1 tail)"
  from assms have r: "r = drop 1 after" and t: "after \<noteq> []"
    by (auto simp: match_generic_group_def Let_def tail_def after_def split: if_splits)
  have "length tail \<le> length s"
    unfolding tail_def using length_dropWhile_le [of "\<lambda>c. c \<noteq> CHR ''>''" "drop 4 s"] by simp
  moreover have "length after \<le> length tail"
    unfolding after_def using length_dropWhile_le [of "\<lambda>c. c \<noteq> CHR '')''" "drop 1 tail"] by simp
  moreover from t have "length (drop 1 after) < length after" by (cases after) auto
  ultimately show ?thesis using r by simp
qed

lemma match_brace_shorter:
  assumes "match_brace s = Some (g, r)"
  shows "length r < length s"
proof -
  define after where "after = dropWhile (\<lambda>c. c \<noteq> CHR ''}'') (drop 1 s)"
  from assms have r: "r = drop 1 after" and t: "after \<noteq> []"
    by (auto simp: match_brace_def Let_def after_def split: if_splits)
  have "length after \<le> length s"
    unfolding after_def using length_dropWhile_le [of "\<lambda>c. c \<noteq> CHR ''}''" "drop 1 s"] by simp
  moreover from t have "length (drop 1 after) < length after" by (cases after) auto
  ultimately show ?thesis using r by simp
qed

text \<open>
  \<^verbatim>\<open>re.sub\<close> scans the subject from the left; at a match it emits the replacement and
  goes on after the match, otherwise it copies one character. No pattern here matches
  the empty string.
\<close>

function sub_numeric_groups :: "string \<Rightarrow> string" where
  "sub_numeric_groups [] = []"
| "sub_numeric_groups (c # cs) =
     (case match_numeric_group (c # cs) of
        Some (name, rest) \<Rightarrow> group_template name @ sub_numeric_groups rest
      | None \<Rightarrow> c # sub_numeric_groups cs)"
  by pat_completeness auto
termination
  by (relation "measure length") (auto dest: match_numeric_group_shorter)

function sub_generic_groups :: "string \<Rightarrow> string" where
  "sub_generic_groups [] = []"
| "sub_generic_groups (c # cs) =
     (case match_generic_group (c # cs) of
        Some (name, rest) \<Rightarrow> group_template name @ sub_generic_groups rest
      | None \<Rightarrow> c # sub_generic_groups cs)"
  by pat_completeness auto
termination
  by (relation "measure length") (auto dest: match_generic_group_shorter)

text \<open>\<^verbatim>\<open>re.findall(r'{([^}]+)}', path)\<close>: group 1 of every match, left to right.\<close>

function path_params :: "string \<Rightarrow> string list" where
  "path_params [] = []"
| "path_params (c # cs) =
     (case match_brace (c # cs) of
        Some (name, rest) \<Rightarrow> name # path_params rest
      | None \<Rightarrow> path_params cs)"
  by pat_completeness auto
termination
  by (relation "measure length") (auto dest: match_brace_shorter)

definition translate_path :: "string \<Rightarrow> string" where
  \<comment> \<open>the first statements of the loop body of \<^verbatim>\<open>generate_openapi_spec\<close>\<close>
  "translate_path route =
     (let path = str_replace ''/wp/v2'' [] route;
          path = sub_numeric_groups path;
          path = sub_generic_groups path
      in if \<not> startswith path ''/'' then ''/'' @ path else path)"

section \<open>Parameters and operations\<close>

text \<open>
  The dict literals of the source with a fixed set of keys are records, one field per
  key; values copied from the input stay JSON values.
\<close>

record schema =
  s_type :: json
  s_enum :: "json option"

record parameter =
  p_name :: string
  p_in :: string
  p_required :: json
  p_schema :: schema
  p_description :: json

record operation =
  op_summary :: string
  op_description :: json
  op_parameters :: "parameter list"
  op_responses :: "(string \<times> (string \<times> string) list) list"

type_synonym path_item = "(string \<times> operation) list"

record info =
  i_title :: string
  i_version :: string
  i_description :: string

record openapi_spec =
  d_openapi :: string
  d_info :: info
  d_servers :: "(string \<times> string) list list"
  d_paths :: "(string \<times> path_item) list"

definition process_arg_details :: "string \<Rightarrow> json \<Rightarrow> parameter" where
  "process_arg_details arg_name arg_details =
     (let param = \<lparr>p_name = arg_name, p_in = ''query'', p_required = JBool False,
                    p_schema = \<lparr>s_type = JStr ''string'', s_enum = None\<rparr>,
                    p_description = JStr []\<rparr>
      in case arg_details of
           JDict d \<Rightarrow>
             let param_type = dict_get d ''type'' (JStr ''string'');
                 param_type = (case param_type of
                                 JList ts \<Rightarrow> (case ts of [] \<Rightarrow> JStr ''string'' | t # _ \<Rightarrow> t)
                               | _ \<Rightarrow> param_type);
                 schema = \<lparr>s_type = param_type, s_enum = None\<rparr>;
                 schema = (if dict_contains d ''enum''
                           then schema\<lparr>s_enum := map_of d ''enum''\<rparr> else schema);
                 description = dict_get d ''description'' (JStr [])
             in param\<lparr>p_required := dict_get d ''required'' (JBool False),
                      p_schema := schema,
                      p_description := description\<rparr>
         | _ \<Rightarrow> param)"

definition path_parameter :: "string \<Rightarrow> parameter" where
  "path_parameter param_name =
     \<lparr>p_name = param_name, p_in = ''path'', p_required = JBool True,
      p_schema = \<lparr>s_type = JStr ''string'', s_enum = None\<rparr>,
      p_description = JStr (''Path parameter: '' @ param_name)\<rparr>"

fun add_path_params :: "string list \<Rightarrow> parameter list \<Rightarrow> parameter list" where
  \<comment> \<open>\<^verbatim>\<open>for param_name in path_params: parameters.append(...)\<close>\<close>
  "add_path_params [] parameters = parameters"
| "add_path_params (param_name # rest) parameters =
     add_path_params rest (parameters @ [path_parameter param_name])"

fun add_args :: "string list \<Rightarrow> (string \<times> json) list \<Rightarrow> parameter list \<Rightarrow> parameter list" where
  \<comment> \<open>\<^verbatim>\<open>for arg_name, arg_details in args.items(): ...\<close>\<close>
  "add_args pps [] parameters = parameters"
| "add_args pps ((arg_name, arg_details) # rest) parameters =
     (if arg_name \<notin> set pps
      then add_args pps rest (parameters @ [process_arg_details arg_name arg_details])
      else add_args pps rest parameters)"

definition responses_stub :: "(string \<times> (string \<times> string) list) list" where
  "responses_stub =
     [(''200'', [(''description'', ''Successful response'')]),
      (''400'', [(''description'', ''Bad request'')]),
      (''401'', [(''description'', ''Unauthorized'')]),
      (''404'', [(''description'', ''Resource not found'')])]"

definition build_parameters :: "string \<Rightarrow> (string \<times> json) list \<Rightarrow> parameter list" where
  "build_parameters path endpoint =
     (let parameters = [];
          pps = path_params path;
          parameters = add_path_params pps parameters;
          args = dict_get endpoint ''args'' (JDict [])
      in case args of JDict a \<Rightarrow> add_args pps a parameters | _ \<Rightarrow> parameters)"

definition build_operation ::
  "(string \<Rightarrow> string) \<Rightarrow> string \<Rightarrow> (string \<times> json) list \<Rightarrow> (string \<times> json) list \<Rightarrow> string \<Rightarrow> operation" where
  \<comment> \<open>the body of the loop over methods, after \<^verbatim>\<open>method = method.lower()\<close>\<close>
  "build_operation upper path details endpoint method =
     \<lparr>op_summary = upper method @ '' '' @ path,
      op_description = dict_get details ''description'' (JStr []),
      op_parameters = build_parameters path endpoint,
      op_responses = responses_stub\<rparr>"

section \<open>The generator\<close>

fun methods_loop ::
  "(string \<Rightarrow> string) \<Rightarrow> (string \<Rightarrow> string) \<Rightarrow> string \<Rightarrow> (string \<times> json) list \<Rightarrow> (string \<times> json) list \<Rightarrow> json list \<Rightarrow> path_item
     \<Rightarrow> error + path_item" where
  "methods_loop lower upper path details endpoint [] path_item = Inr path_item"
| "methods_loop lower upper path details endpoint (m # ms) path_item =
     (case m of
        JStr s \<Rightarrow>
          (let method = lower s
           in methods_loop lower upper path details endpoint ms
                (dict_set path_item method (build_operation upper path details endpoint method)))
      | _ \<Rightarrow> Inl AttributeError)"

fun endpoints_loop ::
  "(string \<Rightarrow> string) \<Rightarrow> (string \<Rightarrow> string) \<Rightarrow> string \<Rightarrow> (string \<times> json) list \<Rightarrow> json list \<Rightarrow> path_item \<Rightarrow> error + path_item" where
  "endpoints_loop lower upper path details [] path_item = Inr path_item"
| "endpoints_loop lower upper path details (e # es) path_item =
     (case e of
        JDict endpoint \<Rightarrow>
          (case py_iter (dict_get endpoint ''methods'' (JList [])) of
             Inl err \<Rightarrow> Inl err
           | Inr ms \<Rightarrow>
               (case methods_loop lower upper path details endpoint ms path_item of
                  Inl err \<Rightarrow> Inl err
                | Inr path_item' \<Rightarrow> endpoints_loop lower upper path details es path_item'))
      | _ \<Rightarrow> Inl AttributeError)"

definition route_path_item ::
  "(string \<Rightarrow> string) \<Rightarrow> (string \<Rightarrow> string) \<Rightarrow> string \<Rightarrow> json \<Rightarrow> error + path_item" where
  \<comment> \<open>the path item a route has built when the loop body reaches \<^verbatim>\<open>if path_item:\<close>\<close>
  "route_path_item lower upper path details =
     (let path_item = []
      in case details of
           JDict d \<Rightarrow>
             if dict_contains d ''endpoints'' then
               (case py_iter (dict_get d ''endpoints'' (JList [])) of
                  Inl err \<Rightarrow> Inl err
                | Inr es \<Rightarrow> endpoints_loop lower upper path d es path_item)
             else Inr path_item
         | _ \<Rightarrow> Inr path_item)"

text \<open>
  In the source the test \<^verbatim>\<open>if path_item:\<close> stands inside the branch for a mapping with an
  \<^verbatim>\<open>endpoints\<close> key. On the other branches \<^verbatim>\<open>path_item\<close> is still empty, so the loop below,
  which makes the test for every route, stores exactly what the source stores.
\<close>

fun routes_loop ::
  "(string \<Rightarrow> string) \<Rightarrow> (string \<Rightarrow> string) \<Rightarrow> (string \<times> json) list \<Rightarrow> (string \<times> path_item) list \<Rightarrow> error + (string \<times> path_item) list" where
  "routes_loop lower upper [] paths = Inr paths"
| "routes_loop lower upper ((route, details) # rest) paths =
     (let path = translate_path route
      in case route_path_item lower upper path details of
           Inl err \<Rightarrow> Inl err
         | Inr path_item \<Rightarrow>
             routes_loop lower upper rest (if path_item \<noteq> [] then dict_set paths path path_item else paths))"

definition generate_openapi_spec ::
  "(string \<Rightarrow> string) \<Rightarrow> (string \<Rightarrow> string) \<Rightarrow> string \<Rightarrow> (string \<times> json) list \<Rightarrow> error + openapi_spec" where
  "generate_openapi_spec lower upper base_url routes =
     (case routes_loop lower upper routes [] of
        Inl err \<Rightarrow> Inl err
      | Inr ps \<Rightarrow>
          Inr \<lparr>d_openapi = ''3.0.0'',
               d_info = \<lparr>i_title = ''WordPress REST API'', i_version = ''1.0.0'',
                         i_description = ''Auto-generated OpenAPI spec for WordPress REST API''\<rparr>,
               d_servers = [[(''url'', base_url)]],
               d_paths = ps\<rparr>)"

section \<open>The generator on an explicit store\<close>

text \<open>
  To speak about mutation and sharing, the same two functions are modelled once more
  with Python's object store made explicit. Lists and dicts are objects at addresses of
  the store; a value is an immutable scalar or a reference to an object. Allocation
  appends to the store. Every statement of the source that writes to an object
  (\<^verbatim>\<open>d[key] = v\<close>, \<^verbatim>\<open>param.update(...)\<close>, \<^verbatim>\<open>parameters.append(...)\<close>) is a
  \<open>store_item\<close> or an \<open>append_item\<close> at the address the source writes to, and every
  dict or list display, the defaults passed to \<^verbatim>\<open>get\<close> included, is an \<open>alloc\<close>. The
  contents of an input dict are read where the source first uses it. The list
  \<^verbatim>\<open>path_params\<close> holds strings only and is never stored in the document; it stays a
  HOL list. \<open>paths\<close> is the address of the dict \<^verbatim>\<open>openapi_spec["paths"]\<close>.
\<close>

datatype val = VNone | VBool bool | VInt int | VFloat real | VStr string | VRef nat

datatype obj = OList "val list" | ODict "(string \<times> val) list"

type_synonym store = "obj list"

definition alloc :: "obj \<Rightarrow> store \<Rightarrow> nat \<times> store" where
  "alloc ob st = (length st, st @ [ob])"

definition store_item :: "nat \<Rightarrow> string \<Rightarrow> val \<Rightarrow> store \<Rightarrow> store" where
  \<comment> \<open>\<^verbatim>\<open>d[key] = v\<close> for the dict at address \<open>a\<close>; the source only does it to dicts it made\<close>
  "store_item a key v st =
     (if a < length st
      then (case st ! a of ODict d \<Rightarrow> st[a := ODict (dict_set d key v)] | OList xs \<Rightarrow> st)
      else st)"

definition append_item :: "nat \<Rightarrow> val \<Rightarrow> store \<Rightarrow> store" where
  \<comment> \<open>\<^verbatim>\<open>xs.append(v)\<close> for the list at address \<open>a\<close>\<close>
  "append_item a v st =
     (if a < length st
      then (case st ! a of OList xs \<Rightarrow> st[a := OList (xs @ [v])] | ODict d \<Rightarrow> st)
      else st)"

definition dict_at :: "store \<Rightarrow> val \<Rightarrow> (string \<times> val) list option" where
  \<comment> \<open>\<^verbatim>\<open>isinstance(v, dict)\<close>, with the contents of the dict\<close>
  "dict_at st v =
     (case v of
        VRef a \<Rightarrow>
          (if a < length st
           then (case st ! a of ODict d \<Rightarrow> Some d | OList xs \<Rightarrow> None) else None)
      | _ \<Rightarrow> None)"

definition list_at :: "store \<Rightarrow> val \<Rightarrow> val list option" where
  \<comment> \<open>\<^verbatim>\<open>isinstance(v, list)\<close>, with the elements of the list\<close>
  "list_at st v =
     (case v of
        VRef a \<Rightarrow>
          (if a < length st
           then (case st ! a of OList xs \<Rightarrow> Some xs | ODict d \<Rightarrow> None) else None)
      | _ \<Rightarrow> None)"

definition iter_st :: "store \<Rightarrow> val \<Rightarrow> error + val list" where
  "iter_st st v =
     (case v of
        VStr s \<Rightarrow> Inr (map (\<lambda>c. VStr [c]) s)
      | VRef a \<Rightarrow>
          (if a < length st
           then (case st ! a of
                   OList xs \<Rightarrow> Inr xs
                 | ODict d \<Rightarrow> Inr (map (\<lambda>kv. VStr (fst kv)) d))
           else Inl TypeError)
      | _ \<Rightarrow> Inl TypeError)"

definition process_arg_details_st :: "string \<Rightarrow> val \<Rightarrow> store \<Rightarrow> val \<times> store" where
  "process_arg_details_st arg_name arg_details st =
     (let (schema0, st) = alloc (ODict [(''type'', VStr ''string'')]) st;
          (param, st) = alloc (ODict [(''name'', VStr arg_name), (''in'', VStr ''query''),
                                      (''required'', VBool False), (''schema'', VRef schema0),
                                      (''description'', VStr [])]) st
      in case dict_at st arg_details of
           Some d \<Rightarrow>
             (let param_type = dict_get d ''type'' (VStr ''string'');
                  param_type = (case list_at st param_type of
                                  Some ts \<Rightarrow> (case ts of [] \<Rightarrow> VStr ''string'' | t # _ \<Rightarrow> t)
                                | None \<Rightarrow> param_type);
                  (schema, st) = alloc (ODict [(''type'', param_type)]) st;
                  st = (if dict_contains d ''enum''
                        then store_item schema ''enum'' (dict_get d ''enum'' VNone) st else st);
                  description = dict_get d ''description'' (VStr []);
                  (changes, st) = alloc (ODict [(''required'', dict_get d ''required'' (VBool False)),
                                                (''schema'', VRef schema),
                                                (''description'', description)]) st;
                  st = store_item param ''required'' (dict_get d ''required'' (VBool False)) st;
                  st = store_item param ''schema'' (VRef schema) st;
                  st = store_item param ''description'' description st
              in (VRef param, st))
         | None \<Rightarrow> (VRef param, st))"

fun add_path_params_st :: "string list \<Rightarrow> nat \<Rightarrow> store \<Rightarrow> store" where
  "add_path_params_st [] parameters st = st"
| "add_path_params_st (param_name # rest) parameters st =
     (let (schema, st) = alloc (ODict [(''type'', VStr ''string'')]) st;
          (param, st) = alloc (ODict [(''name'', VStr param_name), (''in'', VStr ''path''),
                                      (''required'', VBool True), (''schema'', VRef schema),
                                      (''description'', VStr (''Path parameter: '' @ param_name))]) st;
          st = append_item parameters (VRef param) st
      in add_path_params_st rest parameters st)"

fun add_args_st :: "string list \<Rightarrow> (string \<times> val) list \<Rightarrow> nat \<Rightarrow> store \<Rightarrow> store" where
  "add_args_st pps [] parameters st = st"
| "add_args_st pps ((arg_name, arg_details) # rest) parameters st =
     (if arg_name \<notin> set pps then
        (let (param, st) = process_arg_details_st arg_name arg_details st;
             st = append_item parameters param st
         in add_args_st pps rest parameters st)
      else add_args_st pps rest parameters st)"

definition build_operation_st ::
  "(string \<Rightarrow> string) \<Rightarrow> string \<Rightarrow> (string \<times> val) list \<Rightarrow> (string \<times> val) list \<Rightarrow> string \<Rightarrow> store \<Rightarrow> nat \<times> store" where
  "build_operation_st upper path details endpoint method st =
     (let (parameters, st) = alloc (OList []) st;
          pps = path_params path;
          st = add_path_params_st pps parameters st;
          (no_args, st) = alloc (ODict []) st;
          args = dict_get endpoint ''args'' (VRef no_args);
          st = (case dict_at st args of
                  Some a \<Rightarrow> add_args_st pps a parameters st
                | None \<Rightarrow> st);
          (r200, st) = alloc (ODict [(''description'', VStr ''Successful response'')]) st;
          (r400, st) = alloc (ODict [(''description'', VStr ''Bad request'')]) st;
          (r401, st) = alloc (ODict [(''description'', VStr ''Unauthorized'')]) st;
          (r404, st) = alloc (ODict [(''description'', VStr ''Resource not found'')]) st;
          (responses, st) = alloc (ODict [(''200'', VRef r200), (''400'', VRef r400),
                                          (''401'', VRef r401), (''404'', VRef r404)]) st
      in alloc (ODict [(''summary'', VStr (upper method @ '' '' @ path)),
                       (''description'', dict_get details ''description'' (VStr [])),
                       (''parameters'', VRef parameters),
                       (''responses'', VRef responses)]) st)"

fun methods_loop_st ::
  "(string \<Rightarrow> string) \<Rightarrow> (string \<Rightarrow> string) \<Rightarrow> string \<Rightarrow> (string \<times> val) list \<Rightarrow> (string \<times> val) list \<Rightarrow> val list \<Rightarrow> nat \<Rightarrow> store
     \<Rightarrow> (error + unit) \<times> store" where
  "methods_loop_st lower upper path details endpoint [] path_item st = (Inr (), st)"
| "methods_loop_st lower upper path details endpoint (m # ms) path_item st =
     (case m of
        VStr s \<Rightarrow>
          (let method = lower s;
               (operation, st) = build_operation_st upper path details endpoint method st;
               st = store_item path_item method (VRef operation) st
           in methods_loop_st lower upper path details endpoint ms path_item st)
      | _ \<Rightarrow> (Inl AttributeError, st))"

fun endpoints_loop_st ::
  "(string \<Rightarrow> string) \<Rightarrow> (string \<Rightarrow> string) \<Rightarrow> string \<Rightarrow> (string \<times> val) list \<Rightarrow> val list \<Rightarrow> nat \<Rightarrow> store \<Rightarrow> (error + unit) \<times> store" where
  "endpoints_loop_st lower upper path details [] path_item st = (Inr (), st)"
| "endpoints_loop_st lower upper path details (e # es) path_item st =
     (case dict_at st e of
        Some endpoint \<Rightarrow>
          (let (no_methods, st) = alloc (OList []) st
           in case iter_st st (dict_get endpoint ''methods'' (VRef no_methods)) of
                Inl err \<Rightarrow> (Inl err, st)
              | Inr ms \<Rightarrow>
                  (case methods_loop_st lower upper path details endpoint ms path_item st of
                     (Inl err, st) \<Rightarrow> (Inl err, st)
                   | (Inr u, st) \<Rightarrow> endpoints_loop_st lower upper path details es path_item st))
      | None \<Rightarrow> (Inl AttributeError, st))"

fun routes_loop_st ::
  "(string \<Rightarrow> string) \<Rightarrow> (string \<Rightarrow> string) \<Rightarrow> (string \<times> val) list \<Rightarrow> nat \<Rightarrow> store \<Rightarrow> (error + unit) \<times> store" where
  "routes_loop_st lower upper [] paths st = (Inr (), st)"
| "routes_loop_st lower upper ((route, details) # rest) paths st =
     (let path = translate_path route;
          (path_item, st) = alloc (ODict []) st
      in case dict_at st details of
           Some d \<Rightarrow>
             if dict_contains d ''endpoints'' then
               (let (no_endpoints, st) = alloc (OList []) st
                in case iter_st st (dict_get d ''endpoints'' (VRef no_endpoints)) of
                     Inl err \<Rightarrow> (Inl err, st)
                   | Inr es \<Rightarrow>
                       (case endpoints_loop_st lower upper path d es path_item st of
                          (Inl err, st) \<Rightarrow> (Inl err, st)
                        | (Inr u, st) \<Rightarrow>
                            (let st = (if dict_at st (VRef path_item) \<noteq> Some []
                                       then store_item paths path (VRef path_item) st else st)
                             in routes_loop_st lower upper rest paths st)))
             else routes_loop_st lower upper rest paths st
         | None \<Rightarrow> routes_loop_st lower upper rest paths st)"

definition generate_openapi_spec_st ::
  "(string \<Rightarrow> string) \<Rightarrow> (string \<Rightarrow> string) \<Rightarrow> string \<Rightarrow> val \<Rightarrow> store \<Rightarrow> (error + val) \<times> store" where
  "generate_openapi_spec_st lower upper base_url routes st =
     (let (info, st) = alloc (ODict [(''title'', VStr ''WordPress REST API''),
                                     (''version'', VStr ''1.0.0''),
                                     (''description'',
                                      VStr ''Auto-generated OpenAPI spec for WordPress REST API'')]) st;
          (server, st) = alloc (ODict [(''url'', VStr base_url)]) st;
          (servers, st) = alloc (OList [VRef server]) st;
          (paths, st) = alloc (ODict []) st;
          (openapi_spec, st) = alloc (ODict [(''openapi'', VStr ''3.0.0''), (''info'', VRef info),
                                             (''servers'', VRef servers), (''paths'', VRef paths)]) st
      in case dict_at st routes of
           None \<Rightarrow> (Inl AttributeError, st)
         | Some rs \<Rightarrow>
             (case routes_loop_st lower upper rs paths st of
                (Inl err, st) \<Rightarrow> (Inl err, st)
              | (Inr u, st) \<Rightarrow> (Inr (VRef openapi_spec), st)))"

definition frame :: "nat \<Rightarrow> store \<Rightarrow> store \<Rightarrow> bool" where
  "frame n st st' = (n \<le> length st \<and> length st \<le> length st' \<and> take n st' = take n st)"

fun decode :: "nat \<Rightarrow> store \<Rightarrow> val \<Rightarrow> json" where
  "decode 0 st v = JNull"
| "decode (Suc n) st v =
     (case v of
        VNone \<Rightarrow> JNull
      | VBool b \<Rightarrow> JBool b
      | VInt i \<Rightarrow> JInt i
      | VFloat r \<Rightarrow> JFloat r
      | VStr s \<Rightarrow> JStr s
      | VRef a \<Rightarrow>
          (if a < length st
           then (case st ! a of
                   OList xs \<Rightarrow> JList (map (decode n st) xs)
                 | ODict d \<Rightarrow> JDict (map (\<lambda>kv. (fst kv, decode n st (snd kv))) d))
           else JNull))"

definition schema_json :: "schema \<Rightarrow> json" where
  "schema_json s =
     JDict ((''type'', s_type s) # (case s_enum s of None \<Rightarrow> [] | Some e \<Rightarrow> [(''enum'', e)]))"

definition parameter_json :: "parameter \<Rightarrow> json" where
  "parameter_json p =
     JDict [(''name'', JStr (p_name p)), (''in'', JStr (p_in p)), (''required'', p_required p),
            (''schema'', schema_json (p_schema p)), (''description'', p_description p)]"

definition operation_json :: "operation \<Rightarrow> json" where
  "operation_json operation =
     JDict [(''summary'', JStr (op_summary operation)),
            (''description'', op_description operation),
            (''parameters'', JList (map parameter_json (op_parameters operation))),
            (''responses'',
             JDict (map (\<lambda>cr. (fst cr, JDict (map (\<lambda>kv. (fst kv, JStr (snd kv))) (snd cr))))
                      (op_responses operation)))]"

definition document_json :: "openapi_spec \<Rightarrow> json" where
  "document_json doc =
     JDict [(''openapi'', JStr (d_openapi doc)),
            (''info'', JDict [(''title'', JStr (i_title (d_info doc))),
                              (''version'', JStr (i_version (d_info doc))),
                              (''description'', JStr (i_description (d_info doc)))]),
            (''servers'',
             JList (map (\<lambda>s. JDict (map (\<lambda>kv. (fst kv, JStr (snd kv))) s)) (d_servers doc))),
            (''paths'',
             JDict (map (\<lambda>pi. (fst pi, JDict (map (\<lambda>mo. (fst mo, operation_json (snd mo))) (snd pi))))
                      (d_paths doc)))]"

section \<open>Input shapes and sample inputs\<close>

fun method_names :: "(string \<Rightarrow> string) \<Rightarrow> json list \<Rightarrow> string list" where
  "method_names lower [] = []"
| "method_names lower (JStr s # ms) = lower s # method_names lower ms"
| "method_names lower (_ # ms) = method_names lower ms"

definition lowered_methods :: "(string \<Rightarrow> string) \<Rightarrow> json \<Rightarrow> string list" where
  "lowered_methods lower e =
     (case e of
        JDict endpoint \<Rightarrow>
          (case py_iter (dict_get endpoint ''methods'' (JList [])) of
             Inl err \<Rightarrow> []
           | Inr ms \<Rightarrow> method_names lower ms)
      | _ \<Rightarrow> [])"




definition arg_names :: "(string \<times> json) list \<Rightarrow> string list" where
  "arg_names endpoint =
     (case dict_get endpoint ''args'' (JDict []) of JDict a \<Rightarrow> map fst a | _ \<Rightarrow> [])"

definition posts_id_route :: string where
  "posts_id_route = ''/wp/v2/posts/(?P<id>['' @ [backslash] @ ''d]+)''"

definition scenario_endpoint :: "(string \<times> json) list" where
  "scenario_endpoint =
     [(''methods'', JList [JStr ''GET'', JStr ''POST'']),
      (''args'',
       JDict [(''id'', JDict [(''required'', JBool True)]),
              (''context'',
               JDict [(''type'', JStr ''string''),
                      (''enum'', JList [JStr ''view'', JStr ''edit''])])])]"

definition scenario_routes :: "(string \<times> json) list" where
  "scenario_routes =
     [(posts_id_route,
       JDict [(''description'', JStr ''Post''),
              (''endpoints'', JList [JDict scenario_endpoint])])]"

definition scenario_parameters :: "parameter list" where
  "scenario_parameters =
     [\<lparr>p_name = ''{id'', p_in = ''path'', p_required = JBool True,
       p_schema = \<lparr>s_type = JStr ''string'', s_enum = None\<rparr>,
       p_description = JStr ''Path parameter: {id''\<rparr>,
      \<lparr>p_name = ''id'', p_in = ''query'', p_required = JBool True,
       p_schema = \<lparr>s_type = JStr ''string'', s_enum = None\<rparr>,
       p_description = JStr []\<rparr>,
      \<lparr>p_name = ''context'', p_in = ''query'', p_required = JBool False,
       p_schema = \<lparr>s_type = JStr ''string'',
                    s_enum = Some (JList [JStr ''view'', JStr ''edit''])\<rparr>,
       p_description = JStr []\<rparr>]"

definition scenario_operation :: "string \<Rightarrow> operation" where
  "scenario_operation method =
     \<lparr>op_summary = method @ '' /posts//{{id}}'', op_description = JStr ''Post'',
      op_parameters = scenario_parameters, op_responses = responses_stub\<rparr>"

definition scenario_item :: path_item where
  "scenario_item = [(''get'', scenario_operation ''GET''), (''post'', scenario_operation ''POST'')]"

definition scenario_doc :: openapi_spec where
  "scenario_doc =
     \<lparr>d_openapi = ''3.0.0'',
      d_info = \<lparr>i_title = ''WordPress REST API'', i_version = ''1.0.0'',
                i_description = ''Auto-generated OpenAPI spec for WordPress REST API''\<rparr>,
      d_servers = [[(''url'', ''https://example.com'')]],
      d_paths = [(''/posts//{{id}}'', scenario_item)]\<rparr>"

definition twice_id_route :: string where
  "twice_id_route =
     ''/wp/v2/a/(?P<id>['' @ [backslash] @ ''d]+)/b/(?P<id>['' @ [backslash] @ ''d]+)''"



definition no_endpoints_details :: json where
  "no_endpoints_details = JDict [(''description'', JStr ''Site index'')]"

definition first_endpoint :: "(string \<times> json) list" where
  "first_endpoint = [(''methods'', JList [JStr ''GET'']), (''args'', JDict [(''page'', JNull)])]"

definition second_endpoint :: "(string \<times> json) list" where
  "second_endpoint = [(''methods'', JList [JStr ''get'']), (''args'', JDict [(''slug'', JNull)])]"

definition two_endpoints :: "(string \<times> json) list" where
  "two_endpoints = [(''endpoints'', JList [JDict first_endpoint, JDict second_endpoint])]"





definition small_store :: store where
  "small_store =
     [OList [VStr ''view''],
      ODict [(''enum'', VRef 0)],
      ODict [(''context'', VRef 1)],
      OList [VStr ''GET''],
      ODict [(''methods'', VRef 3), (''args'', VRef 2)],
      OList [VRef 4],
      ODict [(''endpoints'', VRef 5)],
      ODict [(''/wp/v2/posts'', VRef 6)]]"

definition small_routes :: "(string \<times> json) list" where
  "small_routes =
     [(''/wp/v2/posts'',
       JDict [(''endpoints'',
               JList [JDict [(''methods'', JList [JStr ''GET'']),
                             (''args'', JDict [(''context'', JDict [(''enum'', JList [JStr ''view''])])])]])])]"

definition repeated_id_routes :: "(string \<times> json) list" where
  "repeated_id_routes =
     [(''/wp/v2/a/{id}/b/{id}'', JDict [(''endpoints'', JList [JDict scenario_endpoint])])]"

definition literal_id_routes :: "(string \<times> json) list" where
  "literal_id_routes =
     [(''/wp/v2/posts/{id}'',
       JDict [(''description'', JStr ''Post''),
              (''endpoints'', JList [JDict scenario_endpoint])])]"

definition literal_id_parameters :: "parameter list" where
  "literal_id_parameters =
     [\<lparr>p_name = ''id'', p_in = ''path'', p_required = JBool True,
       p_schema = \<lparr>s_type = JStr ''string'', s_enum = None\<rparr>,
       p_description = JStr ''Path parameter: id''\<rparr>,
      \<lparr>p_name = ''context'', p_in = ''query'', p_required = JBool False,
       p_schema = \<lparr>s_type = JStr ''string'',
                    s_enum = Some (JList [JStr ''view'', JStr ''edit''])\<rparr>,
       p_description = JStr []\<rparr>]"

definition literal_id_operation :: "string \<Rightarrow> operation" where
  "literal_id_operation method =
     \<lparr>op_summary = method @ '' /posts/{id}'', op_description = JStr ''Post'',
      op_parameters = literal_id_parameters, op_responses = responses_stub\<rparr>"

definition literal_id_item :: path_item where
  "literal_id_item =
     [(''get'', literal_id_operation ''GET''), (''post'', literal_id_operation ''POST'')]"

definition literal_id_doc :: openapi_spec where
  "literal_id_doc =
     \<lparr>d_openapi = ''3.0.0'',
      d_info = \<lparr>i_title = ''WordPress REST API'', i_version = ''1.0.0'',
                i_description = ''Auto-generated OpenAPI spec for WordPress REST API''\<rparr>,
      d_servers = [[(''url'', ''https://example.com'')]],
      d_paths = [(''/posts/{id}'', literal_id_item)]\<rparr>"

section \<open>Auxiliary lemmas\<close>

lemma add_path_params_eq: "add_path_params pps ps = ps @ map path_parameter pps"
  by (induction pps arbitrary: ps) simp_all

lemma add_args_eq:
  "add_args pps a ps =
     ps @ map (\<lambda>(n, d). process_arg_details n d) (filter (\<lambda>(n, d). n \<notin> set pps) a)"
  by (induction a arbitrary: ps) auto

lemma p_name_process_arg_details [simp]: "p_name (process_arg_details n d) = n"
  by (cases d) (simp_all add: process_arg_details_def Let_def)

lemma p_in_process_arg_details [simp]: "p_in (process_arg_details n d) = ''query''"
  by (cases d) (simp_all add: process_arg_details_def Let_def)

lemma p_name_path_parameter [simp]: "p_name (path_parameter n) = n"
  by (simp add: path_parameter_def)

lemma p_in_path_parameter [simp]: "p_in (path_parameter n) = ''path''"
  by (simp add: path_parameter_def)

lemma map_of_dict_set: "map_of (dict_set d k v) = (map_of d)(k \<mapsto> v)"
  by (induction d k v rule: dict_set.induct) auto

lemma set_dict_set:
  "(k', v') \<in> set (dict_set d k v) \<Longrightarrow> (k', v') \<in> set d \<or> (k' = k \<and> v' = v)"
  by (induction d k v rule: dict_set.induct) (auto split: if_splits)

lemma dict_set_not_Nil [simp]: "dict_set d k v \<noteq> []"
  by (induction d k v rule: dict_set.induct) auto

lemma keys_dict_set: "set (map fst (dict_set d k v)) = insert k (set (map fst d))"
  by (induction d k v rule: dict_set.induct) auto

lemma distinct_dict_set: "distinct (map fst d) \<Longrightarrow> distinct (map fst (dict_set d k v))"
proof (induction d k v rule: dict_set.induct)
  case (1 key v)
  then show ?case by simp
next
  case (2 k w d key v)
  then show ?case using keys_dict_set [of d key v] by auto
qed

lemma methods_loop_ops:
  "methods_loop lower upper path d endpoint ms item0 = Inr item \<Longrightarrow> (m, op) \<in> set item \<Longrightarrow>
     (m, op) \<in> set item0 \<or>
     (op = build_operation upper path d endpoint m \<and> (\<exists>s. JStr s \<in> set ms \<and> m = lower s))"
proof (induction ms arbitrary: item0)
  case Nil
  then show ?case by simp
next
  case (Cons x ms)
  from Cons.prems(1) obtain s where x: "x = JStr s"
    by (cases x) simp_all
  let ?item1 = "dict_set item0 (lower s) (build_operation upper path d endpoint (lower s))"
  from Cons.prems(1) x have "methods_loop lower upper path d endpoint ms ?item1 = Inr item"
    by (simp add: Let_def)
  from Cons.IH [OF this Cons.prems(2)] show ?case
    using x by (auto dest: set_dict_set)
qed

lemma endpoints_loop_ops:
  "endpoints_loop lower upper path d es item0 = Inr item \<Longrightarrow> (m, op) \<in> set item \<Longrightarrow>
     (m, op) \<in> set item0 \<or>
     (\<exists>endpoint. JDict endpoint \<in> set es \<and> op = build_operation upper path d endpoint m)"
proof (induction es arbitrary: item0)
  case Nil
  then show ?case by simp
next
  case (Cons e es)
  from Cons.prems(1) obtain endpoint where e: "e = JDict endpoint"
    by (cases e) simp_all
  from Cons.prems(1) e obtain ms item1 where
    ms: "py_iter (dict_get endpoint ''methods'' (JList [])) = Inr ms" and
    m1: "methods_loop lower upper path d endpoint ms item0 = Inr item1" and
    r: "endpoints_loop lower upper path d es item1 = Inr item"
    by (auto split: sum.splits)
  from Cons.IH [OF r Cons.prems(2)] methods_loop_ops [OF m1] e show ?case
    by auto
qed

lemma route_path_item_ops:
  assumes "route_path_item lower upper path details = Inr item" and "(m, op) \<in> set item"
  shows "\<exists>d endpoint. details = JDict d \<and> op = build_operation upper path d endpoint m"
proof (cases details)
  case (JDict d)
  with assms show ?thesis
    by (auto simp: route_path_item_def split: if_splits sum.splits dest: endpoints_loop_ops)
qed (use assms in \<open>simp_all add: route_path_item_def\<close>)

lemma routes_loop_items:
  "routes_loop lower upper rs ps = Inr ps' \<Longrightarrow> (p, item) \<in> set ps' \<Longrightarrow>
     (p, item) \<in> set ps \<or>
     (\<exists>route details. (route, details) \<in> set rs \<and> p = translate_path route \<and>
        route_path_item lower upper p details = Inr item \<and> item \<noteq> [])"
proof (induction rs arbitrary: ps)
  case Nil
  then show ?case by simp
next
  case (Cons r rs)
  obtain route details where r: "r = (route, details)" by (cases r)
  from Cons.prems(1) r obtain item1 where
    i1: "route_path_item lower upper (translate_path route) details = Inr item1" and
    rest: "routes_loop lower upper rs (if item1 \<noteq> [] then dict_set ps (translate_path route) item1 else ps) = Inr ps'"
    by (auto simp: Let_def split: sum.splits)
  from Cons.IH [OF rest Cons.prems(2)] show ?case
    using r i1 by (auto split: if_splits dest: set_dict_set)
qed

lemma generate_paths:
  "generate_openapi_spec lower upper base_url routes = Inr doc \<Longrightarrow> routes_loop lower upper routes [] = Inr (d_paths doc)"
  by (auto simp: generate_openapi_spec_def split: sum.splits)

lemma methods_loop_lookup:
  "methods_loop lower upper path d endpoint ms item0 = Inr item \<Longrightarrow>
     map_of item k =
       (if k \<in> set (method_names lower ms)
        then Some (build_operation upper path d endpoint k) else map_of item0 k)"
proof (induction ms arbitrary: item0)
  case Nil
  then show ?case by simp
next
  case (Cons x ms)
  from Cons.prems obtain s where x: "x = JStr s"
    by (cases x) simp_all
  let ?item1 = "dict_set item0 (lower s) (build_operation upper path d endpoint (lower s))"
  from Cons.prems x have "methods_loop lower upper path d endpoint ms ?item1 = Inr item"
    by (simp add: Let_def)
  from Cons.IH [OF this] show ?case
    using x by (auto simp: map_of_dict_set)
qed

lemma endpoints_loop_append:
  "endpoints_loop lower upper path d (es1 @ es2) item0 =
     (case endpoints_loop lower upper path d es1 item0 of
        Inl err \<Rightarrow> Inl err
      | Inr item1 \<Rightarrow> endpoints_loop lower upper path d es2 item1)"
  by (induction es1 arbitrary: item0) (auto split: json.splits sum.splits)

lemma endpoints_loop_untouched:
  "endpoints_loop lower upper path d es item0 = Inr item \<Longrightarrow>
   \<forall>e \<in> set es. k \<notin> set (lowered_methods lower e) \<Longrightarrow> map_of item k = map_of item0 k"
proof (induction es arbitrary: item0)
  case Nil
  then show ?case by simp
next
  case (Cons e es)
  from Cons.prems(1) obtain endpoint where e: "e = JDict endpoint"
    by (cases e) simp_all
  from Cons.prems(1) e obtain ms item1 where
    ms: "py_iter (dict_get endpoint ''methods'' (JList [])) = Inr ms" and
    m1: "methods_loop lower upper path d endpoint ms item0 = Inr item1" and
    r: "endpoints_loop lower upper path d es item1 = Inr item"
    by (auto split: sum.splits)
  from Cons.prems(2) e ms
  have "k \<notin> set (method_names lower ms)"
    by (simp add: lowered_methods_def)
  with methods_loop_lookup [OF m1, of k] have "map_of item1 k = map_of item0 k"
    by simp
  moreover from Cons.prems(2) have "\<forall>e \<in> set es. k \<notin> set (lowered_methods lower e)" by simp
  from Cons.IH [OF r this] have "map_of item k = map_of item1 k" .
  ultimately show ?case by simp
qed

lemma routes_loop_append:
  "routes_loop lower upper (rs1 @ rs2) ps =
     (case routes_loop lower upper rs1 ps of Inl err \<Rightarrow> Inl err | Inr ps1 \<Rightarrow> routes_loop lower upper rs2 ps1)"
  by (induction rs1 arbitrary: ps) (auto simp: Let_def split: sum.splits)


lemma skipped_route:
  assumes "route_path_item lower upper (translate_path route) details = Inr []"
  shows "generate_openapi_spec lower upper base_url (rs1 @ (route, details) # rs2) =
         generate_openapi_spec lower upper base_url (rs1 @ rs2)"
proof -
  have "routes_loop lower upper (rs1 @ (route, details) # rs2) [] = routes_loop lower upper (rs1 @ rs2) []"
    using assms by (simp add: routes_loop_append Let_def split: sum.splits)
  then show ?thesis by (simp add: generate_openapi_spec_def)
qed

lemma items_nonempty:
  assumes "generate_openapi_spec lower upper base_url routes = Inr doc"
    and "(p, item) \<in> set (d_paths doc)"
  shows "item \<noteq> []"
  using routes_loop_items [OF generate_paths [OF assms(1)] assms(2)] by auto





lemma build_parameters_eq:
  "build_parameters path endpoint =
     map path_parameter (path_params path) @
     (case dict_get endpoint ''args'' (JDict []) of
        JDict a \<Rightarrow> map (\<lambda>(n, d). process_arg_details n d)
                     (filter (\<lambda>(n, d). n \<notin> set (path_params path)) a)
      | _ \<Rightarrow> [])"
  by (simp add: build_parameters_def Let_def add_path_params_eq add_args_eq split: json.splits)

lemma names_of_args:
  "map p_name (map (\<lambda>(n, d). process_arg_details n d) (filter (\<lambda>(n, d). P n) a)) =
     filter P (map fst a)"
  by (induction a) auto

lemma names_of_path_params: "map p_name (map path_parameter pps) = pps"
  by (induction pps) simp_all

lemma build_parameters_names:
  "map p_name (build_parameters path endpoint) =
     path_params path @ filter (\<lambda>n. n \<notin> set (path_params path)) (arg_names endpoint)"
proof (cases "dict_get endpoint ''args'' (JDict [])")
  case (JDict a)
  then show ?thesis
    using names_of_args [of "\<lambda>n. n \<notin> set (path_params path)" a]
    by (simp add: build_parameters_eq arg_names_def names_of_path_params del: map_map)
qed (simp_all add: build_parameters_eq arg_names_def names_of_path_params del: map_map)

lemma translate_posts_id: "translate_path posts_id_route = ''/posts//{{id}}''"
  by code_simp

lemma path_params_posts_id: "path_params ''/posts//{{id}}'' = [''{id'']"
  by code_simp

lemma generate_scenario:
  "generate_openapi_spec ascii_lower ascii_upper ''https://example.com'' scenario_routes = Inr scenario_doc"
  by code_simp

lemma frame_refl: "n \<le> length st \<Longrightarrow> frame n st st"
  by (simp add: frame_def)

lemma frame_bound: "frame n st0 st \<Longrightarrow> n \<le> length st"
  by (simp add: frame_def)

lemma frame_alloc: "frame n st0 st \<Longrightarrow> frame n st0 (st @ obs)"
  by (auto simp: frame_def)

lemma frame_store_item:
  "frame n st0 st \<Longrightarrow> n \<le> a \<Longrightarrow> frame n st0 (store_item a key v st)"
  by (auto simp: frame_def store_item_def split: obj.splits)

lemma frame_append_item:
  "frame n st0 st \<Longrightarrow> n \<le> a \<Longrightarrow> frame n st0 (append_item a v st)"
  by (auto simp: frame_def append_item_def split: obj.splits)

lemma frame_process_arg_details_st:
  assumes "frame n st0 st"
  shows "frame n st0 (snd (process_arg_details_st arg_name arg_details st))"
proof -
  from assms have b: "n \<le> length st" by (rule frame_bound)
  show ?thesis
    using assms b
    by (auto simp: process_arg_details_st_def alloc_def Let_def
          split: option.splits
          intro!: frame_store_item frame_alloc)
qed

lemma process_arg_details_st_result:
  "frame n st0 st \<Longrightarrow> process_arg_details_st arg_name arg_details st = (v, st') \<Longrightarrow>
     \<exists>a. v = VRef a \<and> n \<le> a"
  by (auto simp: process_arg_details_st_def alloc_def Let_def frame_def split: option.splits)

lemma frame_add_path_params_st:
  "frame n st0 st \<Longrightarrow> n \<le> parameters \<Longrightarrow> frame n st0 (add_path_params_st pps parameters st)"
proof (induction pps arbitrary: st)
  case Nil
  then show ?case by simp
next
  case (Cons p pps)
  from Cons.prems have "frame n st0
     (append_item parameters (VRef (Suc (length st)))
        (st @ [ODict [(''type'', VStr ''string'')]] @
           [ODict [(''name'', VStr p), (''in'', VStr ''path''), (''required'', VBool True),
                   (''schema'', VRef (length st)),
                   (''description'', VStr (''Path parameter: '' @ p))]]))"
    by (auto intro!: frame_append_item frame_alloc)
  from Cons.IH [OF this Cons.prems(2)] show ?case
    by (simp add: alloc_def Let_def)
qed

lemma frame_add_args_st:
  "frame n st0 st \<Longrightarrow> n \<le> parameters \<Longrightarrow> frame n st0 (add_args_st pps a parameters st)"
proof (induction a arbitrary: st)
  case Nil
  then show ?case by simp
next
  case (Cons x a)
  obtain arg_name arg_details where x: "x = (arg_name, arg_details)" by (cases x)
  obtain v st1 where p: "process_arg_details_st arg_name arg_details st = (v, st1)"
    by (cases "process_arg_details_st arg_name arg_details st")
  from frame_process_arg_details_st [OF Cons.prems(1), of arg_name arg_details] p
  have "frame n st0 st1" by simp
  then have "frame n st0 (append_item parameters v st1)"
    using Cons.prems(2) by (rule frame_append_item)
  from Cons.IH [OF this Cons.prems(2)] Cons.IH [OF Cons.prems] show ?case
    using x p by simp
qed

lemma frame_build_operation_st:
  assumes "frame n st0 st"
  shows "frame n st0 (snd (build_operation_st upper path details endpoint method st))"
    and "n \<le> fst (build_operation_st upper path details endpoint method st)"
proof -
  from assms have b: "n \<le> length st" by (rule frame_bound)
  let ?st1 = "add_path_params_st (path_params path) (length st) (st @ [OList []])"
  have 1: "frame n st0 ?st1"
    using assms b by (intro frame_add_path_params_st frame_alloc) simp_all
  let ?args = "dict_get endpoint ''args'' (VRef (length ?st1))"
  let ?st2 = "case dict_at (?st1 @ [ODict []]) ?args of
                Some a \<Rightarrow> add_args_st (path_params path) a (length st) (?st1 @ [ODict []])
              | None \<Rightarrow> ?st1 @ [ODict []]"
  have 2: "frame n st0 ?st2"
    using 1 b by (auto split: option.splits intro!: frame_add_args_st frame_alloc)
  show "frame n st0 (snd (build_operation_st upper path details endpoint method st))"
    using 2 by (simp add: build_operation_st_def alloc_def Let_def frame_alloc del: append_assoc)
  show "n \<le> fst (build_operation_st upper path details endpoint method st)"
    using frame_bound [OF 2] by (simp add: build_operation_st_def alloc_def Let_def)
qed

lemma frame_methods_loop_st:
  "frame n st0 st \<Longrightarrow> n \<le> path_item \<Longrightarrow>
     frame n st0 (snd (methods_loop_st lower upper path details endpoint ms path_item st))"
proof (induction ms arbitrary: st)
  case Nil
  then show ?case by simp
next
  case (Cons m ms)
  show ?case
  proof (cases m)
    case (VStr s)
    obtain operation st1 where
      b: "build_operation_st upper path details endpoint (lower s) st = (operation, st1)"
      by (cases "build_operation_st upper path details endpoint (lower s) st")
    from frame_build_operation_st(1) [OF Cons.prems(1), of upper path details endpoint "lower s"] b
    have "frame n st0 st1" by simp
    then have "frame n st0 (store_item path_item (lower s) (VRef operation) st1)"
      using Cons.prems(2) by (rule frame_store_item)
    from Cons.IH [OF this Cons.prems(2)] show ?thesis
      using VStr b by (simp add: Let_def)
  qed (use Cons.prems in simp_all)
qed

lemma frame_endpoints_loop_st:
  "frame n st0 st \<Longrightarrow> n \<le> path_item \<Longrightarrow>
     frame n st0 (snd (endpoints_loop_st lower upper path details es path_item st))"
proof (induction es arbitrary: st)
  case Nil
  then show ?case by simp
next
  case (Cons e es)
  show ?case
  proof (cases "dict_at st e")
    case None
    with Cons.prems show ?thesis by simp
  next
    case (Some endpoint)
    let ?st1 = "st @ [OList []]"
    have 1: "frame n st0 ?st1" using Cons.prems(1) by (rule frame_alloc)
    show ?thesis
    proof (cases "iter_st ?st1 (dict_get endpoint ''methods'' (VRef (length st)))")
      case (Inl err)
      with Some 1 show ?thesis by (simp add: alloc_def)
    next
      case (Inr ms)
      obtain r st2 where m: "methods_loop_st lower upper path details endpoint ms path_item ?st1 = (r, st2)"
        by (cases "methods_loop_st lower upper path details endpoint ms path_item ?st1")
      from frame_methods_loop_st [OF 1 Cons.prems(2), of lower upper path details endpoint ms] m
      have 2: "frame n st0 st2" by simp
      from Cons.IH [OF 2 Cons.prems(2)] 2 show ?thesis
        using Some Inr m by (cases r) (simp_all add: alloc_def)
    qed
  qed
qed

lemma frame_routes_loop_st:
  "frame n st0 st \<Longrightarrow> n \<le> paths \<Longrightarrow> frame n st0 (snd (routes_loop_st lower upper rs paths st))"
proof (induction rs arbitrary: st)
  case Nil
  then show ?case by simp
next
  case (Cons x rs)
  obtain route details where x: "x = (route, details)" by (cases x)
  let ?st1 = "st @ [ODict []]"
  have 1: "frame n st0 ?st1" using Cons.prems(1) by (rule frame_alloc)
  have pi: "n \<le> length st" using Cons.prems(1) by (rule frame_bound)
  show ?case
  proof (cases "dict_at ?st1 details")
    case None
    with Cons.IH [OF 1 Cons.prems(2)] x show ?thesis by (simp add: alloc_def)
  next
    case (Some d)
    show ?thesis
    proof (cases "dict_contains d ''endpoints''")
      case False
      with Cons.IH [OF 1 Cons.prems(2)] x Some show ?thesis by (simp add: alloc_def)
    next
      case True
      let ?st2 = "?st1 @ [OList []]"
      have 2: "frame n st0 ?st2" using 1 by (rule frame_alloc)
      show ?thesis
      proof (cases "iter_st ?st2 (dict_get d ''endpoints'' (VRef (length ?st1)))")
        case (Inl err)
        with x Some True 2 show ?thesis by (simp add: alloc_def)
      next
        case (Inr es)
        obtain r st3 where
          e: "endpoints_loop_st lower upper (translate_path route) d es (length st) ?st2 = (r, st3)"
          by (cases "endpoints_loop_st lower upper (translate_path route) d es (length st) ?st2")
        from frame_endpoints_loop_st [OF 2 pi, of lower upper "translate_path route" d es] e
        have 3: "frame n st0 st3" by simp
        then have 4: "frame n st0 (store_item paths (translate_path route) (VRef (length st)) st3)"
          using Cons.prems(2) by (rule frame_store_item)
        from Cons.IH [OF 3 Cons.prems(2)] Cons.IH [OF 4 Cons.prems(2)] 3 show ?thesis
          using x Some True Inr e by (cases r) (simp_all add: alloc_def Let_def)
      qed
    qed
  qed
qed

lemma frame_generate_openapi_spec_st:
  "frame (length st) st (snd (generate_openapi_spec_st lower upper base_url routes st))"
proof -
  let ?n = "length st"
  let ?st5 = "st @ [ODict [(''title'', VStr ''WordPress REST API''),
                           (''version'', VStr ''1.0.0''),
                           (''description'',
                            VStr ''Auto-generated OpenAPI spec for WordPress REST API'')]]
                 @ [ODict [(''url'', VStr base_url)]]
                 @ [OList [VRef (Suc ?n)]]
                 @ [ODict []]
                 @ [ODict [(''openapi'', VStr ''3.0.0''), (''info'', VRef ?n),
                           (''servers'', VRef (Suc (Suc ?n))), (''paths'', VRef (Suc (Suc (Suc ?n))))]]"
  have 5: "frame ?n st ?st5"
    by (simp add: frame_def)
  show ?thesis
  proof (cases "dict_at ?st5 routes")
    case None
    with 5 show ?thesis by (simp add: generate_openapi_spec_st_def alloc_def)
  next
    case (Some rs)
    obtain r st6 where l: "routes_loop_st lower upper rs (Suc (Suc (Suc ?n))) ?st5 = (r, st6)"
      by (cases "routes_loop_st lower upper rs (Suc (Suc (Suc ?n))) ?st5")
    from frame_routes_loop_st [OF 5, of "Suc (Suc (Suc ?n))" lower upper rs] l have "frame ?n st st6"
      by simp
    with Some l show ?thesis
      by (cases r) (simp_all add: generate_openapi_spec_st_def alloc_def)
  qed
qed

lemma small_store_routes: "decode 8 small_store (VRef 7) = JDict small_routes"
  by code_simp

lemma small_on_store:
  "(case generate_openapi_spec_st ascii_lower ascii_upper ''https://example.com'' (VRef 7) small_store of
      (r, st') \<Rightarrow>
        map_sum id (decode 9 st') r =
          map_sum id document_json (generate_openapi_spec ascii_lower ascii_upper ''https://example.com'' small_routes) \<and>
        ODict [(''type'', VStr ''string''), (''enum'', VRef 0)] \<in> set (drop 8 st'))"
  by code_simp

lemma named_path_parameters:
  "filter (\<lambda>q. p_name q = x) (map path_parameter pps) =
     replicate (count_list pps x) (path_parameter x)"
  by (induction pps) auto

lemma named_args:
  "x \<in> set pps \<Longrightarrow>
     filter (\<lambda>q. p_name q = x)
       (map (\<lambda>(n, d). process_arg_details n d) (filter (\<lambda>(n, d). n \<notin> set pps) a)) = []"
  by (induction a) auto

lemma named_build_parameters:
  assumes "x \<in> set (path_params path)"
  shows "filter (\<lambda>q. p_name q = x) (build_parameters path endpoint) =
           replicate (count_list (path_params path) x) (path_parameter x)"
  using assms
  by (simp add: build_parameters_eq named_path_parameters named_args split: json.splits)

lemma generate_literal_id:
  "generate_openapi_spec ascii_lower ascii_upper ''https://example.com'' literal_id_routes =
     Inr literal_id_doc"
  by code_simp

lemma scenario_parameters:
  "generate_openapi_spec ascii_lower ascii_upper ''https://example.com'' scenario_routes = Inr scenario_doc \<and>
   map (\<lambda>(p, item). (p, map (\<lambda>(m, op). (m, map (\<lambda>q. (p_name q, p_in q)) (op_parameters op))) item))
     (d_paths scenario_doc) =
     [(''/posts//{{id}}'',
       [(''get'', [(''{id'', ''path''), (''id'', ''query''), (''context'', ''query'')]),
        (''post'', [(''{id'', ''path''), (''id'', ''query''), (''context'', ''query'')])])]"
  by (simp add: generate_scenario) (simp add: scenario_doc_def scenario_item_def scenario_operation_def scenario_parameters_def)

section \<open>The claims\<close>

text \<open>
  Claim C1: the route pattern \<^verbatim>\<open>/wp/v2/posts/(?P<id>[\d]+)\<close> should translate to
  \<^verbatim>\<open>/posts/{id}\<close> with the single path parameter \<^verbatim>\<open>id\<close>. The code computes something else:
  the replacement template \<^verbatim>\<open>r'/{{\1}}'\<close> is a raw string, not a format string, so both braces of
  each pair stay, and its leading slash follows the slash the route already has. The
  translated path is \<^verbatim>\<open>/posts//{{id}}\<close>, and the one parameter found in it by
  \<^verbatim>\<open>{([^}]+)}\<close> is named \<^verbatim>\<open>{id\<close>; it is emitted with \<^verbatim>\<open>in = path\<close>.
\<close>

theorem numeric_route_translation:
  "translate_path posts_id_route = ''/posts//{{id}}'' \<and>
   path_params (translate_path posts_id_route) = [''{id''] \<and>
   map (\<lambda>q. (p_name q, p_in q)) (add_path_params (path_params (translate_path posts_id_route)) []) =
     [(''{id'', ''path'')]"
  by (simp add: translate_posts_id path_params_posts_id path_parameter_def del: path_params.simps)

text \<open>
  Claim C2, as stated, fails: the translated path \<^verbatim>\<open>/a/{id}/b/{id}\<close> contains the path
  parameter \<^verbatim>\<open>id\<close> twice and the endpoint declares an argument \<^verbatim>\<open>id\<close>; the declared
  argument is skipped, but each operation gets two entries named \<^verbatim>\<open>id\<close>, both with
  \<^verbatim>\<open>in = path\<close>, not exactly one.
\<close>

theorem repeated_id_counterexample:
  "path_params (translate_path ''/wp/v2/a/{id}/b/{id}'') = [''id'', ''id''] \<and>
   ''id'' \<in> set (arg_names scenario_endpoint) \<and>
   map_sum id
     (\<lambda>doc. map (\<lambda>(p, item).
                 (p, map (\<lambda>(m, op). (m, map (\<lambda>q. (p_name q, p_in q)) (op_parameters op))) item))
              (d_paths doc))
     (generate_openapi_spec ascii_lower ascii_upper ''https://example.com'' repeated_id_routes) =
   Inr [(''/a/{id}/b/{id}'',
         [(''get'', [(''id'', ''path''), (''id'', ''path''), (''context'', ''query'')]),
          (''post'', [(''id'', ''path''), (''id'', ''path''), (''context'', ''query'')])])]"
  by code_simp

text \<open>
  Claim C2, amended: for every route whose translated path contains a path parameter
  named \<^verbatim>\<open>id\<close>, that is, a name \<^verbatim>\<open>re.findall\<close> extracts from it, the entries named \<^verbatim>\<open>id\<close> in
  the parameter list of each operation generated under that path are path parameters
  only, one for each occurrence of the name in the translated path, each with
  \<^verbatim>\<open>in = path\<close>: an argument named \<^verbatim>\<open>id\<close> that an endpoint declares is skipped. There is
  exactly one such entry when the name occurs once in the translated path.
\<close>

theorem declared_id_dropped:
  assumes "generate_openapi_spec lower upper base_url routes = Inr doc"
    and "(p, item) \<in> set (d_paths doc)" and "(m, op) \<in> set item"
    and "''id'' \<in> set (path_params p)"
  shows "filter (\<lambda>q. p_name q = ''id'') (op_parameters op) =
           replicate (count_list (path_params p) ''id'') (path_parameter ''id'') \<and>
         p_in (path_parameter ''id'') = ''path''"
proof -
  from routes_loop_items [OF generate_paths [OF assms(1)] assms(2)]
  obtain details where "route_path_item lower upper p details = Inr item" by auto
  from route_path_item_ops [OF this assms(3)]
  obtain d endpoint where "op = build_operation upper p d endpoint m" by auto
  then show ?thesis
    using named_build_parameters [OF assms(4), of endpoint]
    by (simp add: build_operation_def)
qed

theorem declared_id_dropped_witness:
  "generate_openapi_spec ascii_lower ascii_upper ''https://example.com'' literal_id_routes =
     Inr literal_id_doc \<and>
   (''/posts/{id}'', literal_id_item) \<in> set (d_paths literal_id_doc) \<and>
   (''get'', literal_id_operation ''GET'') \<in> set literal_id_item \<and>
   ''id'' \<in> set (path_params ''/posts/{id}'') \<and>
   ''id'' \<in> set (arg_names scenario_endpoint) \<and>
   filter (\<lambda>q. p_name q = ''id'') (op_parameters (literal_id_operation ''GET'')) =
     [path_parameter ''id''] \<and>
   p_in (path_parameter ''id'') = ''path''"
proof -
  have a: "(''/posts/{id}'', literal_id_item) \<in> set (d_paths literal_id_doc)"
    by (simp add: literal_id_doc_def)
  have b: "(''get'', literal_id_operation ''GET'') \<in> set literal_id_item"
    by (simp add: literal_id_item_def)
  have c: "''id'' \<in> set (path_params ''/posts/{id}'')" by code_simp
  have d: "''id'' \<in> set (arg_names scenario_endpoint)" by code_simp
  have e: "count_list (path_params ''/posts/{id}'') ''id'' = 1" by code_simp
  from declared_id_dropped [OF generate_literal_id a b c] generate_literal_id a b c d show ?thesis
    by (simp add: e del: path_params.simps)
qed

text \<open>
  Claim C3, as stated, fails: a route pattern with the capture group \<^verbatim>\<open>id\<close> twice gives
  two path parameters of the same name, since \<^verbatim>\<open>re.findall\<close> returns every match and
  nothing removes duplicates.
\<close>

theorem duplicate_group_counterexample:
  "translate_path twice_id_route = ''/a//{{id}}/b//{{id}}'' \<and>
   map (\<lambda>q. (p_name q, p_in q))
     (op_parameters (build_operation ascii_upper (translate_path twice_id_route) [] [] ''get'')) =
     [(''{id'', ''path''), (''{id'', ''path'')] \<and>
   \<not> distinct (map p_name
     (op_parameters (build_operation ascii_upper (translate_path twice_id_route) [] [] ''get'')))"
  by code_simp

text \<open>
  Claim C3, amended: the parameter names of an operation are the names found in the
  translated path, in order of occurrence and with repetitions kept, followed by the
  names of the declared arguments that are not among them, in mapping order; declared
  arguments whose names are among the extracted path parameter names are dropped.
  The keys of the \<^verbatim>\<open>args\<close> mapping being pairwise distinct, the parameter names of an
  operation are unique exactly when the names found in the path are.
\<close>

theorem parameter_names:
  assumes "distinct (arg_names endpoint)"
  shows "map p_name (op_parameters (build_operation upper path details endpoint method)) =
           path_params path @ filter (\<lambda>n. n \<notin> set (path_params path)) (arg_names endpoint)
         \<and> (distinct (map p_name (op_parameters (build_operation upper path details endpoint method)))
              \<longleftrightarrow> distinct (path_params path))"
proof -
  have n: "map p_name (op_parameters (build_operation upper path details endpoint method)) =
           path_params path @ filter (\<lambda>n. n \<notin> set (path_params path)) (arg_names endpoint)"
    by (simp add: build_operation_def build_parameters_names)
  from assms have "distinct (filter (\<lambda>n. n \<notin> set (path_params path)) (arg_names endpoint))"
    by simp
  then have "distinct (path_params path @ filter (\<lambda>n. n \<notin> set (path_params path)) (arg_names endpoint))
             \<longleftrightarrow> distinct (path_params path)"
    by auto
  with n show ?thesis by simp
qed

theorem parameter_names_witness:
  "distinct (arg_names scenario_endpoint) \<and>
   map p_name (op_parameters (build_operation ascii_upper ''/posts/{id}'' [] scenario_endpoint ''get'')) =
     [''id'', ''context''] \<and>
   distinct (map p_name (op_parameters (build_operation ascii_upper ''/posts/{id}'' [] scenario_endpoint ''get'')))"
proof -
  have h: "distinct (arg_names scenario_endpoint)" by code_simp
  have a: "arg_names scenario_endpoint = [''id'', ''context'']" by code_simp
  have p: "path_params ''/posts/{id}'' = [''id'']" by code_simp
  from parameter_names [OF h, of ascii_upper "''/posts/{id}''" "[]" "''get''"] h show ?thesis
    by (simp add: a p del: path_params.simps)
qed




text \<open>
  Claim C5: for every route pattern, the empty string and patterns without capture
  groups included, the translated path starts with \<^verbatim>\<open>/\<close>.
\<close>

theorem leading_slash: "startswith (translate_path route) ''/''"
  by (simp add: translate_path_def Let_def startswith_def)

text \<open>
  Claim C6: a route whose metadata is not a mapping, or lacks the \<^verbatim>\<open>endpoints\<close> key, or
  whose endpoints build an empty path item, contributes nothing: the generator returns
  what it returns on the input without that route. Every path item stored in \<^verbatim>\<open>paths\<close> has
  at least one method.
\<close>

theorem empty_routes_omitted:
  "(((\<forall>d. details \<noteq> JDict d) \<or> (\<exists>d. details = JDict d \<and> \<not> dict_contains d ''endpoints'') \<or>
     route_path_item lower upper (translate_path route) details = Inr [])
    \<longrightarrow> generate_openapi_spec lower upper base_url (rs1 @ (route, details) # rs2) =
        generate_openapi_spec lower upper base_url (rs1 @ rs2))
   \<and> (generate_openapi_spec lower upper base_url routes = Inr doc
        \<longrightarrow> (\<forall>(p, item) \<in> set (d_paths doc). item \<noteq> []))"
proof (intro conjI impI)
  assume "(\<forall>d. details \<noteq> JDict d) \<or> (\<exists>d. details = JDict d \<and> \<not> dict_contains d ''endpoints'') \<or>
     route_path_item lower upper (translate_path route) details = Inr []"
  then have "route_path_item lower upper (translate_path route) details = Inr []"
    by (cases details) (auto simp: route_path_item_def)
  then show "generate_openapi_spec lower upper base_url (rs1 @ (route, details) # rs2) =
        generate_openapi_spec lower upper base_url (rs1 @ rs2)"
    by (rule skipped_route)
next
  assume "generate_openapi_spec lower upper base_url routes = Inr doc"
  then show "\<forall>(p, item) \<in> set (d_paths doc). item \<noteq> []"
    using items_nonempty by blast
qed

theorem empty_routes_omitted_witness:
  "(\<exists>d. no_endpoints_details = JDict d \<and> \<not> dict_contains d ''endpoints'') \<and>
   generate_openapi_spec ascii_lower ascii_upper ''https://example.com''
     (scenario_routes @ (''/wp/v2'', no_endpoints_details) # []) =
   generate_openapi_spec ascii_lower ascii_upper ''https://example.com'' (scenario_routes @ []) \<and>
   generate_openapi_spec ascii_lower ascii_upper ''https://example.com'' scenario_routes = Inr scenario_doc \<and>
   list_all (\<lambda>(p, item). item \<noteq> []) (d_paths scenario_doc)"
proof -
  have h: "\<exists>d. no_endpoints_details = JDict d \<and> \<not> dict_contains d ''endpoints''"
    by (simp add: no_endpoints_details_def dict_contains_def)
  from empty_routes_omitted [of no_endpoints_details ascii_lower ascii_upper "''/wp/v2''"
      "''https://example.com''"
      scenario_routes "[]" scenario_routes scenario_doc] h generate_scenario
  show ?thesis unfolding list_all_iff by blast
qed

text \<open>
  Claim C7: every operation of every path item of a generated document has the fixed
  \<^verbatim>\<open>responses\<close> mapping, whose keys are exactly \<^verbatim>\<open>200\<close>, \<^verbatim>\<open>400\<close>, \<^verbatim>\<open>401\<close> and \<^verbatim>\<open>404\<close>.
\<close>

theorem responses_fixed:
  assumes "generate_openapi_spec lower upper base_url routes = Inr doc"
    and "(p, item) \<in> set (d_paths doc)" and "(m, op) \<in> set item"
  shows "op_responses op = responses_stub \<and>
         map fst (op_responses op) = [''200'', ''400'', ''401'', ''404'']"
proof -
  from routes_loop_items [OF generate_paths [OF assms(1)] assms(2)]
  obtain details where "route_path_item lower upper p details = Inr item" by auto
  from route_path_item_ops [OF this assms(3)]
  obtain d endpoint where "op = build_operation upper p d endpoint m" by auto
  then show ?thesis by (simp add: build_operation_def responses_stub_def)
qed

theorem responses_fixed_witness:
  "generate_openapi_spec ascii_lower ascii_upper ''https://example.com'' scenario_routes = Inr scenario_doc \<and>
   (''/posts//{{id}}'', scenario_item) \<in> set (d_paths scenario_doc) \<and>
   (''post'', scenario_operation ''POST'') \<in> set scenario_item \<and>
   map fst (op_responses (scenario_operation ''POST'')) = [''200'', ''400'', ''401'', ''404'']"
proof -
  have a: "(''/posts//{{id}}'', scenario_item) \<in> set (d_paths scenario_doc)"
    by (simp add: scenario_doc_def)
  have b: "(''post'', scenario_operation ''POST'') \<in> set scenario_item"
    by (simp add: scenario_item_def)
  from responses_fixed [OF generate_scenario a b] generate_scenario a b show ?thesis
    by blast
qed

text \<open>
  Claim C8: when a lowercased method name is declared by an endpoint of a route and by
  no endpoint after it (whatever the endpoints before it declare), the path item of the
  route maps that name to the operation built from this endpoint alone: its parameters
  are those of this endpoint, nothing of an earlier operation is merged in. Method
  names are compared after \<^verbatim>\<open>str.lower\<close>, the parameter \<open>lower\<close>; the statement holds for
  every case mapping, so for the library's Unicode one.
\<close>

theorem later_endpoint_wins:
  assumes "route_path_item lower upper path (JDict d) = Inr item"
    and "dict_contains d ''endpoints''"
    and "py_iter (dict_get d ''endpoints'' (JList [])) = Inr (es1 @ JDict endpoint # es2)"
    and "k \<in> set (lowered_methods lower (JDict endpoint))"
    and "\<forall>e \<in> set es2. k \<notin> set (lowered_methods lower e)"
  shows "map_of item k = Some (build_operation upper path d endpoint k)"
proof -
  from assms(1-3) have "endpoints_loop lower upper path d (es1 @ JDict endpoint # es2) [] = Inr item"
    by (simp add: route_path_item_def)
  then obtain item1 where
    r: "endpoints_loop lower upper path d (JDict endpoint # es2) item1 = Inr item"
    by (auto simp: endpoints_loop_append split: sum.splits)
  then obtain ms item2 where
    ms: "py_iter (dict_get endpoint ''methods'' (JList [])) = Inr ms" and
    m1: "methods_loop lower upper path d endpoint ms item1 = Inr item2" and
    r2: "endpoints_loop lower upper path d es2 item2 = Inr item"
    by (auto split: sum.splits)
  from assms(4) ms
  have "k \<in> set (method_names lower ms)"
    by (simp add: lowered_methods_def)
  with methods_loop_lookup [OF m1, of k]
  have "map_of item2 k = Some (build_operation upper path d endpoint k)" by simp
  with endpoints_loop_untouched [OF r2 assms(5)] show ?thesis by simp
qed

theorem later_endpoint_wins_witness:
  "route_path_item ascii_lower ascii_upper ''/pages'' (JDict two_endpoints) =
     Inr [(''get'', build_operation ascii_upper ''/pages'' two_endpoints second_endpoint ''get'')] \<and>
   dict_contains two_endpoints ''endpoints'' \<and>
   py_iter (dict_get two_endpoints ''endpoints'' (JList [])) =
     Inr ([JDict first_endpoint] @ JDict second_endpoint # []) \<and>
   ''get'' \<in> set (lowered_methods ascii_lower (JDict first_endpoint)) \<and>
   ''get'' \<in> set (lowered_methods ascii_lower (JDict second_endpoint)) \<and>
   map_of [(''get'', build_operation ascii_upper ''/pages'' two_endpoints second_endpoint ''get'')] ''get'' =
     Some (build_operation ascii_upper ''/pages'' two_endpoints second_endpoint ''get'') \<and>
   map p_name (op_parameters (build_operation ascii_upper ''/pages'' two_endpoints second_endpoint ''get'')) =
     [''slug'']"
proof -
  have r: "route_path_item ascii_lower ascii_upper ''/pages'' (JDict two_endpoints) =
     Inr [(''get'', build_operation ascii_upper ''/pages'' two_endpoints second_endpoint ''get'')]"
    by code_simp
  have c: "dict_contains two_endpoints ''endpoints''" by code_simp
  have i: "py_iter (dict_get two_endpoints ''endpoints'' (JList [])) =
     Inr ([JDict first_endpoint] @ JDict second_endpoint # [])" by code_simp
  have k1: "''get'' \<in> set (lowered_methods ascii_lower (JDict first_endpoint))" by code_simp
  have k: "''get'' \<in> set (lowered_methods ascii_lower (JDict second_endpoint))" by code_simp
  have n: "map p_name (op_parameters (build_operation ascii_upper ''/pages'' two_endpoints second_endpoint ''get'')) =
     [''slug'']" by code_simp
  have e: "\<forall>e \<in> set []. ''get'' \<notin> set (lowered_methods ascii_lower e)" by simp
  from later_endpoint_wins [OF r c i k e] r c i k1 k n show ?thesis
    by simp
qed



text \<open>
  Claim C10: neither function mutates its inputs. On the explicit store, every object
  that exists before a call of \<^verbatim>\<open>generate_openapi_spec\<close> or of \<^verbatim>\<open>process_arg_details\<close>, so the
  routes mapping, every route's metadata, every endpoint entry and every argument spec,
  is the same object with the same contents after it, whether the call returns or
  raises: what the call writes to are objects it has allocated itself. (The output may
  refer to input objects, as \<open>small_on_store\<close> shows for an \<^verbatim>\<open>enum\<close> list.)
\<close>

theorem inputs_unchanged:
  "take (length st) (snd (generate_openapi_spec_st lower upper base_url routes st)) = st \<and>
   take (length st) (snd (process_arg_details_st arg_name arg_details st)) = st"
  using frame_generate_openapi_spec_st [of st lower upper base_url routes]
    frame_process_arg_details_st [OF frame_refl [OF order_refl], of st arg_name arg_details]
  by (simp add: frame_def)

end
